theory Spec2Isabelle
  imports Complex_Main "HOL-Library.Multiset"
begin

section \<open>Excalibur Rain: the game logic of \<open>main.js\<close>\<close>

text \<open>
  A shallow embedding of the decision logic of \<open>src/main.js\<close>: terrain generation
  (\<open>WorldGenerator.createIsland\<close>), the spawn handler (\<open>mousedown\<close>, \<open>spawnSword\<close>),
  the boundary check (\<open>beforeUpdate\<close>), the sticking mechanic (\<open>collisionStart\<close>) and the
  session state (\<open>Game\<close>, \<open>triggerLifeLoss\<close>, \<open>triggerGameOver\<close>, \<open>saveScore\<close>,
  \<open>reset\<close>).

  Conventions of the model.
  \<^item> JavaScript numbers that hold angles and coordinates are modelled as \<open>real\<close>. In the
    verticality test the constants are the doubles of the source (\<open>Math.PI\<close>, the literal
    \<open>0.8\<close>, the rounded difference \<open>Math.PI * 2 - 0.8\<close>); \<open>%\<close>, \<open>Math.abs\<close> and the
    comparisons are exact on doubles, so on every double angle the model computes what
    the code computes. In terrain generation the arithmetic is idealised: it is exact,
    and \<open>Math.PI\<close> is \<open>pi\<close>.
    The one place where the source can produce \<open>NaN\<close> (the division \<open>x / width\<close> of the
    bottom pass on a canvas of width 0) is kept, as the value \<open>NaN\<close> of \<open>jsnum\<close>.
  \<^item> Counters and timestamps (\<open>lives\<close>, \<open>swordsOnScreen\<close>, \<open>Date.now()\<close>, the scores) are
    \<open>int\<close>; \<open>canvas.width\<close> and \<open>canvas.height\<close> are \<open>nat\<close>.
  \<^item> A Matter.js body is a record; object identity is the field \<open>ident\<close> (Matter gives
    every body a fresh \<open>id\<close>), and a reference to a body is its \<open>ident\<close>.
  \<^item> The physics engine, the noise source, \<open>Math.random\<close> and the clock are external:
    what they return is an input of the model (\<open>simplex\<close>, the arguments of the events).
  \<^item> The DOM side (\<open>updateUI\<close>, the red flash, the game-over screen) and
    \<open>localStorage.setItem\<close> decide nothing and are left out.
\<close>

subsection \<open>Configuration\<close>

abbreviation (input) START_PCT :: real where "START_PCT \<equiv> 0.3"
abbreviation (input) END_PCT :: real where "END_PCT \<equiv> 0.55"
abbreviation (input) DEPTH :: real where "DEPTH \<equiv> 250"
abbreviation (input) NOISE_SCALE :: real where "NOISE_SCALE \<equiv> 0.005"
abbreviation (input) SWORD_WIDTH :: real where "SWORD_WIDTH \<equiv> 35"
abbreviation (input) SWORD_HEIGHT :: real where "SWORD_HEIGHT \<equiv> 320"
abbreviation (input) SPAWN_Y :: real where "SPAWN_Y \<equiv> - 500"
abbreviation (input) COOLDOWN :: int where "COOLDOWN \<equiv> 500"
abbreviation (input) maxLives :: int where "maxLives \<equiv> 3"
abbreviation (input) resolution :: real where "resolution \<equiv> 15"

subsection \<open>Numbers\<close>

datatype jsnum = NaN | Num real

text \<open>\<open>a % m\<close> on numbers: the remainder has the sign of the dividend, the quotient is
  truncated towards zero.\<close>

definition js_trunc :: "real \<Rightarrow> int" where
  "js_trunc q = (if 0 \<le> q then \<lfloor>q\<rfloor> else \<lceil>q\<rceil>)"

definition js_rem :: "real \<Rightarrow> real \<Rightarrow> real" where
  "js_rem a m = a - m * of_int (js_trunc (a / m))"


text \<open>\<open>Math.PI\<close> is the double nearest to \<open>pi\<close>, \<open>0x400921FB54442D18\<close>; the literal \<open>0.8\<close>
  is the double \<open>0x3FE999999999999A\<close>.\<close>

definition Math_PI :: real where
  "Math_PI = 884279719003555 / 2 ^ 48"

definition lit_0_8 :: real where
  "lit_0_8 = 3602879701896397 / 2 ^ 52"

text \<open>Rounding to the nearest double of \<open>[4, 8)\<close>, where the doubles are the multiples of
  \<open>2 ^ -50\<close>: the rounding of the subtraction \<open>Math.PI * 2 - 0.8\<close>, whose exact value
  \<open>6173517826554340.75 / 2 ^ 50\<close> is no tie. (The product \<open>Math.PI * 2\<close> is exact.)\<close>

definition round_4_8 :: "real \<Rightarrow> real" where
  "round_4_8 x = of_int (round (x * 2 ^ 50)) / 2 ^ 50"

text \<open>The verticality test of the \<open>collisionStart\<close> handler, on \<open>sword.angle\<close>.\<close>

definition isVertical :: "real \<Rightarrow> bool" where
  "isVertical swordAngle =
     (let a = js_rem swordAngle (Math_PI * 2)
      in \<bar>a\<bar> < lit_0_8 \<or> \<bar>a\<bar> > round_4_8 (Math_PI * 2 - lit_0_8))"





subsection \<open>Bodies and the session state\<close>

record vertex =
  vx :: real
  vy :: jsnum

datatype shape = Rectangle real real | Polygon "vertex list"

record body =
  ident :: nat
  label :: string
  isStatic :: bool
  position :: "real \<times> real"
  angle :: real
  velocity :: "real \<times> real"
  angularVelocity :: real
  shape :: shape

record game =
  lives :: int
  swordsOnScreen :: int
  isPlaying :: bool
  lastSpawnTime :: int
  highScores :: "int list"
  world :: "body list"
  islandBody :: "nat option"
  simplex :: "real \<Rightarrow> real \<Rightarrow> real"
  nextId :: nat
  canvasWidth :: nat
  canvasHeight :: nat

text \<open>\<open>World.add\<close> appends; \<open>World.remove\<close> removes the body found by \<open>indexOf\<close>, and
  does nothing when it is not in the world; \<open>World.clear\<close> empties the body list.\<close>

definition World_add :: "body list \<Rightarrow> body \<Rightarrow> body list" where
  "World_add w b = w @ [b]"

fun World_remove :: "body list \<Rightarrow> nat \<Rightarrow> body list" where
  "World_remove [] i = []"
| "World_remove (b # bs) i = (if ident b = i then bs else b # World_remove bs i)"

definition lookup_body :: "body list \<Rightarrow> nat \<Rightarrow> body option" where
  "lookup_body w i = find (\<lambda>b. ident b = i) w"

subsection \<open>High scores\<close>

text \<open>\<open>Array.prototype.sort\<close> with a comparator, as a stable insertion sort: \<open>x\<close> goes
  before the first \<open>y\<close> with \<open>cmp x y \<le> 0\<close>.\<close>

fun insert_cmp :: "(int \<Rightarrow> int \<Rightarrow> int) \<Rightarrow> int \<Rightarrow> int list \<Rightarrow> int list" where
  "insert_cmp cmp x [] = [x]"
| "insert_cmp cmp x (y # ys) =
     (if cmp x y \<le> 0 then x # y # ys else y # insert_cmp cmp x ys)"

definition js_sort :: "(int \<Rightarrow> int \<Rightarrow> int) \<Rightarrow> int list \<Rightarrow> int list" where
  "js_sort cmp xs = foldr (insert_cmp cmp) xs []"

definition saveScore :: "game \<Rightarrow> game" where
  "saveScore s =
     s\<lparr>highScores := take 3 (js_sort (\<lambda>a b. b - a) (highScores s @ [swordsOnScreen s]))\<rparr>"

subsection \<open>Terrain generation\<close>

definition top_vertex :: "(real \<Rightarrow> real \<Rightarrow> real) \<Rightarrow> real \<Rightarrow> real \<Rightarrow> real \<Rightarrow> vertex" where
  "top_vertex noise2D startX surfaceY x =
     (let noiseVal = noise2D ((x + startX) * NOISE_SCALE) 0;
          y = surfaceY + noiseVal * 40
      in \<lparr>vx = startX + x, vy = Num y\<rparr>)"

text \<open>With \<open>width = 0\<close> the quotient \<open>x / width\<close> is \<open>NaN\<close> or infinite, and \<open>Math.sin\<close>
  of either is \<open>NaN\<close>.\<close>

definition bottom_vertex ::
  "(real \<Rightarrow> real \<Rightarrow> real) \<Rightarrow> real \<Rightarrow> real \<Rightarrow> real \<Rightarrow> real \<Rightarrow> vertex" where
  "bottom_vertex noise2D startX surfaceY width x =
     (let noiseVal = noise2D ((x + startX) * 0.01) 100
      in \<lparr>vx = startX + x,
          vy = (if width = 0 then NaN
                else Num (surfaceY + DEPTH * sin ((x / width) * pi) + noiseVal * 60))\<rparr>)"

text \<open>Pass 1: \<open>for (let x = 0; x <= width; x += resolution)\<close>.\<close>

function top_pass ::
  "(real \<Rightarrow> real \<Rightarrow> real) \<Rightarrow> real \<Rightarrow> real \<Rightarrow> real \<Rightarrow> real \<Rightarrow> vertex list" where
  "top_pass noise2D startX surfaceY width x =
     (if x \<le> width
      then top_vertex noise2D startX surfaceY x
           # top_pass noise2D startX surfaceY width (x + resolution)
      else [])"
  by pat_completeness auto
termination
proof (relation "measure (\<lambda>(noise2D, startX, surfaceY, width, x). nat (\<lfloor>(width - x) / 15\<rfloor> + 1))")
  show "wf (measure (\<lambda>(noise2D :: real \<Rightarrow> real \<Rightarrow> real, startX :: real, surfaceY :: real,
      width :: real, x :: real). nat (\<lfloor>(width - x) / 15\<rfloor> + 1)))"
    by simp
next
  fix noise2D :: "real \<Rightarrow> real \<Rightarrow> real" and startX surfaceY width x :: real
  assume le: "x \<le> width"
  have eq: "(width - (x + 15)) / 15 = (width - x) / 15 - 1" by simp
  have "0 \<le> \<lfloor>(width - x) / 15\<rfloor>" using le by simp
  then have "nat (\<lfloor>(width - (x + 15)) / 15\<rfloor> + 1) < nat (\<lfloor>(width - x) / 15\<rfloor> + 1)"
    unfolding eq by simp
  then show "((noise2D, startX, surfaceY, width, x + resolution),
             (noise2D, startX, surfaceY, width, x))
        \<in> measure (\<lambda>(noise2D, startX, surfaceY, width, x). nat (\<lfloor>(width - x) / 15\<rfloor> + 1))"
    by simp
qed

text \<open>Pass 2: \<open>for (let x = width; x >= 0; x -= resolution)\<close>.\<close>

function bottom_pass ::
  "(real \<Rightarrow> real \<Rightarrow> real) \<Rightarrow> real \<Rightarrow> real \<Rightarrow> real \<Rightarrow> real \<Rightarrow> vertex list" where
  "bottom_pass noise2D startX surfaceY width x =
     (if x \<ge> 0
      then bottom_vertex noise2D startX surfaceY width x
           # bottom_pass noise2D startX surfaceY width (x - resolution)
      else [])"
  by pat_completeness auto
termination
proof (relation "measure (\<lambda>(noise2D, startX, surfaceY, width, x). nat (\<lfloor>x / 15\<rfloor> + 1))")
  show "wf (measure (\<lambda>(noise2D :: real \<Rightarrow> real \<Rightarrow> real, startX :: real, surfaceY :: real,
      width :: real, x :: real). nat (\<lfloor>x / 15\<rfloor> + 1)))"
    by simp
next
  fix noise2D :: "real \<Rightarrow> real \<Rightarrow> real" and startX surfaceY width x :: real
  assume ge: "0 \<le> x"
  have eq: "(x - 15) / 15 = x / 15 - 1" by simp
  have "0 \<le> \<lfloor>x / 15\<rfloor>" using ge by simp
  then have "nat (\<lfloor>(x - 15) / 15\<rfloor> + 1) < nat (\<lfloor>x / 15\<rfloor> + 1)"
    unfolding eq by simp
  then show "((noise2D, startX, surfaceY, width, x - resolution),
             (noise2D, startX, surfaceY, width, x))
        \<in> measure (\<lambda>(noise2D, startX, surfaceY, width, x). nat (\<lfloor>x / 15\<rfloor> + 1))"
    by simp
qed

declare top_pass.simps [simp del] bottom_pass.simps [simp del]

text \<open>The vertex list of \<open>createIsland\<close> for a canvas of the given size: the top pass,
  then the bottom pass.\<close>

definition island_startX :: "nat \<Rightarrow> real" where
  "island_startX cw = real cw * START_PCT"

definition island_width :: "nat \<Rightarrow> real" where
  "island_width cw = real cw * END_PCT - island_startX cw"

definition island_surfaceY :: "nat \<Rightarrow> real" where
  "island_surfaceY ch = real ch - 150"

definition top_vertices :: "(real \<Rightarrow> real \<Rightarrow> real) \<Rightarrow> nat \<Rightarrow> nat \<Rightarrow> vertex list" where
  "top_vertices noise2D cw ch =
     top_pass noise2D (island_startX cw) (island_surfaceY ch) (island_width cw) 0"

definition bottom_vertices :: "(real \<Rightarrow> real \<Rightarrow> real) \<Rightarrow> nat \<Rightarrow> nat \<Rightarrow> vertex list" where
  "bottom_vertices noise2D cw ch =
     bottom_pass noise2D (island_startX cw) (island_surfaceY ch) (island_width cw)
       (island_width cw)"

definition island_vertices :: "(real \<Rightarrow> real \<Rightarrow> real) \<Rightarrow> nat \<Rightarrow> nat \<Rightarrow> vertex list" where
  "island_vertices noise2D cw ch = top_vertices noise2D cw ch @ bottom_vertices noise2D cw ch"

text \<open>\<open>WorldGenerator.createIsland\<close>: the previous island, when there is one, is removed
  from the world; the new body is static, labelled \<open>ground\<close>, and added to the world.\<close>

definition createIsland :: "game \<Rightarrow> game" where
  "createIsland s =
     (let startX = island_startX (canvasWidth s);
          width = island_width (canvasWidth s);
          surfaceY = island_surfaceY (canvasHeight s);
          vertices = island_vertices (simplex s) (canvasWidth s) (canvasHeight s);
          w = (case islandBody s of None \<Rightarrow> world s | Some i \<Rightarrow> World_remove (world s) i);
          centerX = startX + width / 2;
          centerY = surfaceY + DEPTH / 2;
          island = \<lparr>ident = nextId s, label = ''ground'', isStatic = True,
                    position = (centerX, centerY), angle = 0, velocity = (0, 0),
                    angularVelocity = 0, shape = Polygon vertices\<rparr>
      in s\<lparr>world := World_add w island, islandBody := Some (nextId s),
            nextId := nextId s + 1\<rparr>)"

subsection \<open>Session state\<close>

definition reset :: "game \<Rightarrow> game" where
  "reset s =
     createIsland (s\<lparr>lives := 3, swordsOnScreen := 0, isPlaying := True, lastSpawnTime := 0,
                     world := []\<rparr>)"

definition triggerGameOver :: "game \<Rightarrow> game" where
  "triggerGameOver s = saveScore (s\<lparr>isPlaying := False\<rparr>)"

definition triggerLifeLoss :: "game \<Rightarrow> game" where
  "triggerLifeLoss s =
     (let s1 = s\<lparr>lives := lives s - 1\<rparr>
      in if lives s1 \<le> 0 then triggerGameOver s1 else s1)"

subsection \<open>Spawning\<close>

text \<open>\<open>spawnSword\<close>; \<open>rnd\<close> is the value of \<open>Math.random()\<close>.\<close>

definition spawnSword :: "real \<Rightarrow> real \<Rightarrow> game \<Rightarrow> game" where
  "spawnSword x rnd s =
     (let sword = \<lparr>ident = nextId s, label = ''sword'', isStatic = False,
                   position = (x, SPAWN_Y), angle = 0, velocity = (0, 0),
                   angularVelocity = (rnd - 0.5) * 0.02,
                   shape = Rectangle SWORD_WIDTH SWORD_HEIGHT\<rparr>
      in s\<lparr>world := World_add (world s) sword, nextId := nextId s + 1,
            swordsOnScreen := swordsOnScreen s + 1\<rparr>)"

text \<open>The \<open>mousedown\<close> listener; \<open>now\<close> is the value of \<open>Date.now()\<close>.\<close>

definition mousedown :: "real \<Rightarrow> int \<Rightarrow> real \<Rightarrow> game \<Rightarrow> game" where
  "mousedown clientX now rnd s =
     (if \<not> isPlaying s then s
      else if now - lastSpawnTime s < COOLDOWN then s
      else (spawnSword clientX rnd s)\<lparr>lastSpawnTime := now\<rparr>)"

subsection \<open>The boundary check\<close>

text \<open>The body of the \<open>forEach\<close> of the \<open>beforeUpdate\<close> listener, for one body of the
  snapshot \<open>Composite.allBodies(engine.world)\<close>.\<close>

definition voidCheck :: "body \<Rightarrow> game \<Rightarrow> game" where
  "voidCheck b s =
     (if label b = ''sword'' \<and> snd (position b) > real (canvasHeight s) + 400
      then triggerLifeLoss
             (s\<lparr>world := World_remove (world s) (ident b),
                swordsOnScreen := swordsOnScreen s - 1\<rparr>)
      else s)"

definition beforeUpdate :: "game \<Rightarrow> game" where
  "beforeUpdate s = (if \<not> isPlaying s then s else fold voidCheck (world s) s)"

subsection \<open>The sticking mechanic\<close>

text \<open>\<open>Body.setStatic(sword, true)\<close>, \<open>Body.setVelocity(sword, {x: 0, y: 0})\<close> and
  \<open>Body.setAngularVelocity(sword, 0)\<close>.\<close>

definition pin :: "body \<Rightarrow> body" where
  "pin b = b\<lparr>isStatic := True, velocity := (0, 0), angularVelocity := 0\<rparr>"

text \<open>Which of the two bodies of a pair is the sword, and which the other one.\<close>

definition identify :: "body \<Rightarrow> body \<Rightarrow> (body \<times> body) option" where
  "identify bodyA bodyB =
     (if label bodyA = ''sword'' then Some (bodyA, bodyB)
      else if label bodyB = ''sword'' then Some (bodyB, bodyA)
      else None)"

text \<open>One pair of a \<open>collisionStart\<close> event. The pair holds references; a body that is
  not in the world is out of the state, and what happens to it is not modelled.\<close>

definition collidePair :: "nat \<times> nat \<Rightarrow> game \<Rightarrow> game" where
  "collidePair pair s =
     (case (lookup_body (world s) (fst pair), lookup_body (world s) (snd pair)) of
        (Some bodyA, Some bodyB) \<Rightarrow>
          (case identify bodyA bodyB of
             None \<Rightarrow> s
           | Some (sword, other) \<Rightarrow>
               if \<not> isStatic sword \<and> label other = ''ground'' then
                 (if isVertical (angle sword)
                  then s\<lparr>world := map (\<lambda>b. if ident b = ident sword then pin b else b)
                                     (world s)\<rparr>
                  else s)
               else s)
      | _ \<Rightarrow> s)"

definition collisionStart :: "(nat \<times> nat) list \<Rightarrow> game \<Rightarrow> game" where
  "collisionStart pairs s = fold collidePair pairs s"

subsection \<open>The environment\<close>

text \<open>\<open>resizeCanvas\<close>, run on every \<open>resize\<close> of the window.\<close>

definition resizeCanvas :: "nat \<Rightarrow> nat \<Rightarrow> game \<Rightarrow> game" where
  "resizeCanvas innerWidth innerHeight s =
     s\<lparr>canvasWidth := innerWidth, canvasHeight := innerHeight\<rparr>"

text \<open>What the engine's integration does to the bodies is an input: a list of
  \<open>(ident, position, angle)\<close>. Static bodies do not move.\<close>

definition integrate :: "(nat \<times> (real \<times> real) \<times> real) list \<Rightarrow> body list \<Rightarrow> body list" where
  "integrate moves w =
     map (\<lambda>b. if isStatic b then b
              else (case map_of moves (ident b) of
                      None \<Rightarrow> b
                    | Some (p, a) \<Rightarrow> b\<lparr>position := p, angle := a\<rparr>)) w"

text \<open>\<open>Engine.update\<close>, called once per frame by \<open>render\<close>: the \<open>beforeUpdate\<close> event, the
  integration, then the \<open>collisionStart\<close> event.\<close>

definition engineUpdate ::
  "(nat \<times> (real \<times> real) \<times> real) list \<Rightarrow> (nat \<times> nat) list \<Rightarrow> game \<Rightarrow> game" where
  "engineUpdate moves pairs s =
     collisionStart pairs ((beforeUpdate s)\<lparr>world := integrate moves (world (beforeUpdate s))\<rparr>)"

text \<open>The state after the script has loaded: the \<open>Game\<close> literal, with the scores read
  from storage (\<open>None\<close> when the key is absent), then \<open>WorldGenerator.createIsland()\<close>.\<close>

definition initial :: "nat \<Rightarrow> nat \<Rightarrow> (real \<Rightarrow> real \<Rightarrow> real) \<Rightarrow> int list option \<Rightarrow> game" where
  "initial innerWidth innerHeight noise2D stored =
     createIsland
       \<lparr>lives = 3, swordsOnScreen = 0, isPlaying = True, lastSpawnTime = 0,
        highScores = (case stored of None \<Rightarrow> [0, 0, 0] | Some hs \<Rightarrow> hs),
        world = [], islandBody = None, simplex = noise2D, nextId = 0,
        canvasWidth = innerWidth, canvasHeight = innerHeight\<rparr>"

datatype event =
    MouseDown real int real
  | Frame "(nat \<times> (real \<times> real) \<times> real) list" "(nat \<times> nat) list"
  | Resize nat nat
  | Restart

fun handle :: "event \<Rightarrow> game \<Rightarrow> game" where
  "handle (MouseDown clientX now rnd) s = mousedown clientX now rnd s"
| "handle (Frame moves pairs) s = engineUpdate moves pairs s"
| "handle (Resize innerWidth innerHeight) s = resizeCanvas innerWidth innerHeight s"
| "handle Restart s = reset s"

definition run :: "event list \<Rightarrow> game \<Rightarrow> game" where
  "run evs s = fold handle evs s"

subsection \<open>Properties the claims speak of\<close>

text \<open>The comparison \<open>y >= r\<close> of JavaScript: false on \<open>NaN\<close>.\<close>

fun jsnum_ge :: "jsnum \<Rightarrow> real \<Rightarrow> bool" where
  "jsnum_ge NaN r = False"
| "jsnum_ge (Num y) r = (y \<ge> r)"

text \<open>Every vertex of the bottom pass lies at or below the nominal surface (\<open>y\<close> grows
  downwards on the canvas).\<close>

definition positive_thickness :: "(real \<Rightarrow> real \<Rightarrow> real) \<Rightarrow> nat \<Rightarrow> nat \<Rightarrow> bool" where
  "positive_thickness noise2D cw ch =
     list_all (\<lambda>p. jsnum_ge (vy p) (island_surfaceY ch)) (bottom_vertices noise2D cw ch)"

text \<open>The Euclidean distance of two vertices, \<open>NaN\<close> when a coordinate is.\<close>

fun distance :: "vertex \<Rightarrow> vertex \<Rightarrow> jsnum" where
  "distance p q =
     (case (vy p, vy q) of
        (Num yp, Num yq) \<Rightarrow> Num (sqrt ((vx p - vx q)\<^sup>2 + (yp - yq)\<^sup>2))
      | _ \<Rightarrow> NaN)"

text \<open>The first and the last vertex of a polygon are at most one step apart.\<close>

definition closed_within_step :: "vertex list \<Rightarrow> bool" where
  "closed_within_step vs =
     (case distance (hd vs) (last vs) of NaN \<Rightarrow> False | Num d \<Rightarrow> d \<le> resolution)"

text \<open>A body that the boundary check removes on a canvas of height \<open>ch\<close>.\<close>

definition in_void :: "nat \<Rightarrow> body \<Rightarrow> bool" where
  "in_void ch b = (label b = ''sword'' \<and> snd (position b) > real ch + 400)"

text \<open>The boundary check, run in state \<open>s\<close>, leaves every pinned sword in the world.\<close>

definition keeps_pinned :: "game \<Rightarrow> bool" where
  "keeps_pinned s =
     list_all (\<lambda>b. label b = ''sword'' \<and> isStatic b \<longrightarrow> b \<in> set (world (beforeUpdate s)))
       (world s)"

text \<open>The events that neither resize the canvas nor restart the session.\<close>

fun quiet :: "event \<Rightarrow> bool" where
  "quiet (MouseDown clientX now rnd) = True"
| "quiet (Frame moves pairs) = True"
| "quiet (Resize innerWidth innerHeight) = False"
| "quiet Restart = False"


text \<open>What holds of the bodies of every state the handlers produce: identifiers are
  distinct and below \<open>nextId\<close>, the only labels are \<open>sword\<close> and \<open>ground\<close>, and a body
  labelled \<open>ground\<close> is static.\<close>

definition body_ok :: "nat \<Rightarrow> body \<Rightarrow> bool" where
  "body_ok n b =
     (ident b < n \<and> (label b = ''sword'' \<or> label b = ''ground'' \<and> isStatic b))"

definition wf_game :: "game \<Rightarrow> bool" where
  "wf_game s = (distinct (map ident (world s)) \<and> list_all (body_ok (nextId s)) (world s))"

text \<open>What holds of \<open>lives\<close> between two handlers: it is at most \<open>maxLives\<close>, and
  the session is playing exactly when a life is left.\<close>

definition lives_ok :: "game \<Rightarrow> bool" where
  "lives_ok s = (lives s \<le> maxLives \<and> isPlaying s = (1 \<le> lives s))"

text \<open>Two states that differ at most in the identifiers the engine handed out.\<close>

definition anonymous :: "body \<Rightarrow> body" where
  "anonymous b = b\<lparr>ident := 0\<rparr>"

definition same_session :: "game \<Rightarrow> game \<Rightarrow> bool" where
  "same_session s t =
     (lives s = lives t \<and> swordsOnScreen s = swordsOnScreen t \<and> isPlaying s = isPlaying t
      \<and> lastSpawnTime s = lastSpawnTime t \<and> highScores s = highScores t
      \<and> map anonymous (world s) = map anonymous (world t)
      \<and> canvasWidth s = canvasWidth t \<and> canvasHeight s = canvasHeight t)"

subsection \<open>Concrete sessions\<close>

definition const_noise :: "real \<Rightarrow> real \<Rightarrow> real \<Rightarrow> real" where
  "const_noise c x y = c"

text \<open>A fresh session on a canvas of 1200 by 800, flat noise, nothing in storage.\<close>

definition fresh :: game where
  "fresh = initial 1200 800 (const_noise 0) None"

definition island0 :: body where
  "island0 = \<lparr>ident = 0, label = ''ground'', isStatic = True, position = (510, 775),
     angle = 0, velocity = (0, 0), angularVelocity = 0,
     shape = Polygon (island_vertices (const_noise 0) 1200 800)\<rparr>"

definition sword_at :: "nat \<Rightarrow> real \<times> real \<Rightarrow> real \<Rightarrow> body" where
  "sword_at i p a = \<lparr>ident = i, label = ''sword'', isStatic = False, position = p,
     angle = a, velocity = (0, 0), angularVelocity = 0,
     shape = Rectangle SWORD_WIDTH SWORD_HEIGHT\<rparr>"

text \<open>A sword has been dropped above the island and has reached its surface, leaning by
  0.3 radians.\<close>

definition landing :: game where
  "landing = run [MouseDown 500 1000 0.5, Frame [(1, (500, 490), 0.3)] []] fresh"

text \<open>Two swords have been lost one after the other; two more have been dropped and are
  both below the boundary when the next frame begins.\<close>

definition last_life :: game where
  "last_life =
     run [MouseDown 100 1000 0.5, Frame [(1, (100, 1300), 0)] [], Frame [] [],
          MouseDown 100 2000 0.5, Frame [(2, (100, 1300), 0)] [], Frame [] [],
          MouseDown 100 3000 0.5, MouseDown 900 3500 0.5,
          Frame [(3, (100, 1300), 0), (4, (900, 1300), 0)] []] fresh"

text \<open>The same session when the third sword is lost one frame before the fourth falls
  below the boundary: the session is over and the fourth sword is still in the world.\<close>

definition finished :: game where
  "finished =
     run [MouseDown 100 1000 0.5, Frame [(1, (100, 1300), 0)] [], Frame [] [],
          MouseDown 100 2000 0.5, Frame [(2, (100, 1300), 0)] [], Frame [] [],
          MouseDown 100 3000 0.5, MouseDown 900 3500 0.5,
          Frame [(3, (100, 1300), 0)] [], Frame [(4, (900, 1300), 0)] []] fresh"

text \<open>On a canvas of 1200 by 2000 a sword is dropped, reaches the island upright and is
  pinned there; then the window is made 400 high.\<close>

definition tall_island :: body where
  "tall_island = \<lparr>ident = 0, label = ''ground'', isStatic = True, position = (510, 1975),
     angle = 0, velocity = (0, 0), angularVelocity = 0,
     shape = Polygon (island_vertices (const_noise 0) 1200 2000)\<rparr>"

definition pinned_then_resized :: game where
  "pinned_then_resized =
     run [MouseDown 500 1000 0.5, Frame [(1, (500, 1690), 0)] [(1, 0)], Resize 1200 400]
       (initial 1200 2000 (const_noise 0) None)"

section \<open>The verticality test\<close>

subsection \<open>Bounds of \<open>pi\<close>\<close>



subsection \<open>The remainder and the thresholds\<close>

lemma upper_threshold: "round_4_8 (Math_PI * 2 - lit_0_8) = 6173517826554341 / 2 ^ 50"
proof -
  have e: "(Math_PI * 2 - lit_0_8) * 2 ^ 50 = 24694071306217363 / 4"
    by (simp add: Math_PI_def lit_0_8_def)
  have r: "round (24694071306217363 / 4 :: real) = 6173517826554341"
    by (simp add: round_def floor_eq_iff)
  show ?thesis unfolding round_4_8_def e r by simp
qed

lemma isVertical_thresholds:
  "isVertical a \<longleftrightarrow>
     \<bar>js_rem a (Math_PI * 2)\<bar> < lit_0_8
     \<or> \<bar>js_rem a (Math_PI * 2)\<bar> > 6173517826554341 / 2 ^ 50"
  by (simp add: isVertical_def Let_def upper_threshold)

lemma js_rem_first: "0 \<le> a \<Longrightarrow> a < m \<Longrightarrow> js_rem a m = a"
proof -
  assume a: "0 \<le> a" "a < m"
  then have "0 \<le> a / m" "a / m < 1" by simp_all
  then have "\<lfloor>a / m\<rfloor> = 0" by (simp add: floor_eq_iff)
  with \<open>0 \<le> a / m\<close> show ?thesis by (simp add: js_rem_def js_trunc_def)
qed









text \<open>Any angle from zero to below \<open>0.8\<close> passes the test.\<close>

lemma isVertical_small: "0 \<le> a \<Longrightarrow> a < 0.8 \<Longrightarrow> isVertical a"
proof -
  assume a: "0 \<le> a" "a < 0.8"
  then have "a < Math_PI * 2" by (simp add: Math_PI_def)
  with a(1) have "js_rem a (Math_PI * 2) = a" by (rule js_rem_first)
  then show ?thesis using a by (simp add: isVertical_thresholds lit_0_8_def)
qed

subsection \<open>Doubles within one turn\<close>















section \<open>Concrete sessions, evaluated\<close>

lemmas step_defs = run_def mousedown_def spawnSword_def World_add_def engineUpdate_def
  beforeUpdate_def voidCheck_def collisionStart_def integrate_def Let_def
  triggerLifeLoss_def triggerGameOver_def saveScore_def js_sort_def

lemma fresh_eval:
  "fresh = \<lparr>lives = 3, swordsOnScreen = 0, isPlaying = True, lastSpawnTime = 0,
     highScores = [0, 0, 0], world = [island0], islandBody = Some 0,
     simplex = const_noise 0, nextId = 1, canvasWidth = 1200, canvasHeight = 800\<rparr>"
  by (simp add: fresh_def initial_def createIsland_def Let_def World_add_def island0_def
      island_startX_def island_width_def island_surfaceY_def)

lemma landing_eval:
  "landing = \<lparr>lives = 3, swordsOnScreen = 1, isPlaying = True, lastSpawnTime = 1000,
     highScores = [0, 0, 0], world = [island0, sword_at 1 (500, 490) 0.3], islandBody = Some 0,
     simplex = const_noise 0, nextId = 2, canvasWidth = 1200, canvasHeight = 800\<rparr>"
  unfolding landing_def fresh_eval
  by (simp add: step_defs island0_def sword_at_def)

lemma last_life_eval:
  "last_life = \<lparr>lives = 1, swordsOnScreen = 2, isPlaying = True, lastSpawnTime = 3500,
     highScores = [0, 0, 0],
     world = [island0, sword_at 3 (100, 1300) 0, sword_at 4 (900, 1300) 0],
     islandBody = Some 0,
     simplex = const_noise 0, nextId = 5, canvasWidth = 1200, canvasHeight = 800\<rparr>"
  unfolding last_life_def fresh_eval
  by (simp add: step_defs island0_def sword_at_def)

lemma finished_eval:
  "finished = \<lparr>lives = 0, swordsOnScreen = 1, isPlaying = False, lastSpawnTime = 3500,
     highScores = [1, 0, 0],
     world = [island0, sword_at 4 (900, 1300) 0],
     islandBody = Some 0,
     simplex = const_noise 0, nextId = 5, canvasWidth = 1200, canvasHeight = 800\<rparr>"
  unfolding finished_def fresh_eval
  by (simp add: step_defs island0_def sword_at_def)

section \<open>Saving the score\<close>

lemma mset_insert_cmp: "mset (insert_cmp cmp x ys) = add_mset x (mset ys)"
  by (induction ys) simp_all

lemma mset_js_sort: "mset (js_sort cmp xs) = mset xs"
  unfolding js_sort_def by (induction xs) (simp_all add: mset_insert_cmp)

lemma set_insert_cmp: "set (insert_cmp cmp x ys) = insert x (set ys)"
  using mset_insert_cmp [of cmp x ys, THEN arg_cong, of set_mset] by simp

lemma desc_insert_cmp:
  "sorted_wrt (\<ge>) ys \<Longrightarrow> sorted_wrt (\<ge>) (insert_cmp (\<lambda>a b. b - a) x ys)"
proof (induction ys)
  case Nil
  show ?case by simp
next
  case (Cons y ys)
  show ?case
  proof (cases "y - x \<le> 0")
    case True
    with Cons.prems show ?thesis by auto
  next
    case False
    with Cons show ?thesis by (auto simp: set_insert_cmp)
  qed
qed

lemma desc_js_sort: "sorted_wrt (\<ge>) (js_sort (\<lambda>a b. b - a) xs)"
  unfolding js_sort_def by (induction xs) (simp_all add: desc_insert_cmp)

lemma length_js_sort: "length (js_sort cmp xs) = length xs"
  using mset_js_sort [of cmp xs, THEN arg_cong, of size] by simp

text \<open>
  Claim C7. After \<open>saveScore\<close>, whatever the list of scores was before, the list is sorted
  in descending order and has at most three entries (exactly three when there were at least
  two before); its entries are taken from the previous entries and the session's sword
  count, and every entry left out is at most every entry kept: the list holds the three
  largest values.
\<close>

theorem saveScore_top_three:
  "(let hs' = highScores (saveScore s); entries = highScores s @ [swordsOnScreen s]
    in sorted_wrt (\<ge>) hs' \<and> length hs' \<le> 3 \<and> length hs' = min 3 (length entries)
       \<and> mset hs' \<subseteq># mset entries
       \<and> (\<forall>y \<in># mset entries - mset hs'. \<forall>x \<in> set hs'. y \<le> x))"
proof -
  define entries where "entries = highScores s @ [swordsOnScreen s]"
  define sorted where "sorted = js_sort (\<lambda>a b. b - a) entries"
  have hs: "highScores (saveScore s) = take 3 sorted"
    by (simp add: saveScore_def sorted_def entries_def)
  have d: "sorted_wrt (\<ge>) sorted" unfolding sorted_def by (rule desc_js_sort)
  have m: "mset entries = mset (take 3 sorted) + mset (drop 3 sorted)"
    by (metis append_take_drop_id mset_append mset_js_sort sorted_def)
  have split: "sorted_wrt (\<ge>) (take 3 sorted @ drop 3 sorted)" using d by simp
  have 1: "sorted_wrt (\<ge>) (take 3 sorted)"
    using split unfolding sorted_wrt_append by blast
  have 2: "\<forall>y \<in> set (drop 3 sorted). \<forall>x \<in> set (take 3 sorted). y \<le> x"
    using split unfolding sorted_wrt_append by blast
  have 3: "length (take 3 sorted) = min 3 (length entries)"
    by (simp add: sorted_def length_js_sort min.commute)
  have 4: "mset entries - mset (take 3 sorted) = mset (drop 3 sorted)"
    unfolding m by simp
  have 5: "mset (take 3 sorted) \<subseteq># mset entries" unfolding m by simp
  show ?thesis
    unfolding Let_def hs entries_def [symmetric] using 1 2 3 5 unfolding 4 by simp
qed

theorem saveScore_top_three_witness:
  "highScores (saveScore (finished\<lparr>highScores := [7, 4, 2], swordsOnScreen := 5\<rparr>)) = [7, 5, 4]
   \<and> sorted_wrt (\<ge>) (highScores (saveScore (finished\<lparr>highScores := [7, 4, 2], swordsOnScreen := 5\<rparr>)))
   \<and> highScores (saveScore finished) = [1, 1, 0]"
  using saveScore_top_three [of "finished\<lparr>highScores := [7, 4, 2], swordsOnScreen := 5\<rparr>"]
    saveScore_top_three [of finished]
  by (simp add: finished_eval saveScore_def js_sort_def Let_def)

section \<open>Spawning\<close>

text \<open>
  Claim C6. A pointer-down event at time \<open>now\<close> does nothing when the session is not
  playing or when \<open>now - lastSpawnTime\<close> is below the cooldown of 500 ms. Otherwise it adds
  exactly one body to the world, a falling sword at the event's \<open>x\<close> and the spawn height,
  sets \<open>lastSpawnTime\<close> to \<open>now\<close> and adds one to the sword counter; a second event less
  than 500 ms after an accepted one then does nothing.
\<close>

theorem mousedown_cooldown:
  "(\<not> isPlaying s \<or> now - lastSpawnTime s < COOLDOWN \<longrightarrow> mousedown x now rnd s = s)
   \<and> (isPlaying s \<and> \<not> now - lastSpawnTime s < COOLDOWN \<longrightarrow>
        world (mousedown x now rnd s) =
          world s @ [\<lparr>ident = nextId s, label = ''sword'', isStatic = False,
                      position = (x, SPAWN_Y), angle = 0, velocity = (0, 0),
                      angularVelocity = (rnd - 0.5) * 0.02,
                      shape = Rectangle SWORD_WIDTH SWORD_HEIGHT\<rparr>]
        \<and> lastSpawnTime (mousedown x now rnd s) = now
        \<and> swordsOnScreen (mousedown x now rnd s) = swordsOnScreen s + 1
        \<and> lives (mousedown x now rnd s) = lives s
        \<and> isPlaying (mousedown x now rnd s)
        \<and> highScores (mousedown x now rnd s) = highScores s
        \<and> (\<forall>x' now' rnd'. now' - now < COOLDOWN \<longrightarrow>
              mousedown x' now' rnd' (mousedown x now rnd s) = mousedown x now rnd s))"
  by (simp add: mousedown_def spawnSword_def World_add_def Let_def)

theorem mousedown_cooldown_witness:
  "world (mousedown 500 1000 0.5 fresh) = [island0, sword_at 1 (500, - 500) 0]
   \<and> lastSpawnTime (mousedown 500 1000 0.5 fresh) = 1000
   \<and> swordsOnScreen (mousedown 500 1000 0.5 fresh) = 1
   \<and> mousedown 500 1499 0.5 (mousedown 500 1000 0.5 fresh) = mousedown 500 1000 0.5 fresh
   \<and> mousedown 500 499 0.5 fresh = fresh
   \<and> mousedown 500 9000 0.5 finished = finished"
  using mousedown_cooldown [of fresh 1000 500 "0.5"] mousedown_cooldown [of fresh 499 500 "0.5"]
    mousedown_cooldown [of finished 9000 500 "0.5"]
  by (simp add: fresh_eval finished_eval sword_at_def)

section \<open>The bodies of the world\<close>

subsection \<open>Removal\<close>

lemma set_World_remove: "set (World_remove w i) \<subseteq> set w"
  by (induction w) auto

lemma World_remove_filter:
  "distinct (map ident w) \<Longrightarrow> World_remove w i = filter (\<lambda>c. ident c \<noteq> i) w"
proof (induction w)
  case Nil
  show ?case by simp
next
  case (Cons b bs)
  from Cons.prems have "ident b \<notin> ident ` set bs" by simp
  then have "\<forall>c \<in> set bs. ident c \<noteq> ident b" by (metis imageI)
  then have "filter (\<lambda>c. ident c \<noteq> ident b) bs = bs" by (simp add: filter_id_conv)
  with Cons show ?case by (cases "ident b = i") auto
qed

lemma distinct_World_remove:
  "distinct (map ident w) \<Longrightarrow> distinct (map ident (World_remove w i))"
  by (simp add: World_remove_filter distinct_map_filter)

lemma list_all_World_remove: "list_all P w \<Longrightarrow> list_all P (World_remove w i)"
  using set_World_remove [of w i] by (auto simp: list_all_iff)

lemma body_ok_mono: "body_ok n b \<Longrightarrow> n \<le> m \<Longrightarrow> body_ok m b"
  by (auto simp: body_ok_def)

lemma list_all_body_ok_mono: "list_all (body_ok n) w \<Longrightarrow> n \<le> m \<Longrightarrow> list_all (body_ok m) w"
  by (auto simp: list_all_iff intro: body_ok_mono)

lemma body_ok_fresh: "list_all (body_ok n) w \<Longrightarrow> n \<notin> ident ` set w"
  by (auto simp: list_all_iff body_ok_def)

subsection \<open>Lookup and collision pairs\<close>

lemma lookup_body_ident: "lookup_body w i = Some b \<Longrightarrow> ident b = i \<and> b \<in> set w"
  unfolding lookup_body_def by (auto simp: find_Some_iff)

lemma pin_fields [simp]:
  "ident (pin b) = ident b" "label (pin b) = label b" "isStatic (pin b)"
  "velocity (pin b) = (0, 0)" "angularVelocity (pin b) = 0"
  "position (pin b) = position b" "angle (pin b) = angle b" "shape (pin b) = shape b"
  by (simp_all add: pin_def)

text \<open>A pair changes nothing, or pins one body of the world.\<close>

lemma collidePair_shape:
  "collidePair pr s = s \<or>
   (\<exists>sw \<in> set (world s). \<not> isStatic sw \<and> label sw = ''sword'' \<and>
      collidePair pr s = s\<lparr>world := map (\<lambda>b. if ident b = ident sw then pin b else b) (world s)\<rparr>)"
proof (cases "lookup_body (world s) (fst pr)")
  case None
  then show ?thesis by (simp add: collidePair_def)
next
  case A: (Some bodyA)
  show ?thesis
  proof (cases "lookup_body (world s) (snd pr)")
    case None
    with A show ?thesis by (simp add: collidePair_def)
  next
    case B: (Some bodyB)
    have mem: "bodyA \<in> set (world s)" "bodyB \<in> set (world s)"
      using A B lookup_body_ident by blast+
    show ?thesis
    proof (cases "label bodyA = ''sword''")
      case True
      then have i: "identify bodyA bodyB = Some (bodyA, bodyB)" by (simp add: identify_def)
      show ?thesis
      proof (cases "\<not> isStatic bodyA \<and> label bodyB = ''ground'' \<and> isVertical (angle bodyA)")
        case pins: True
        then have "collidePair pr s =
            s\<lparr>world := map (\<lambda>b. if ident b = ident bodyA then pin b else b) (world s)\<rparr>"
          using A B i by (simp add: collidePair_def)
        with pins True mem(1) show ?thesis by blast
      next
        case False
        then have "collidePair pr s = s" using A B i by (auto simp: collidePair_def)
        then show ?thesis by simp
      qed
    next
      case notA: False
      show ?thesis
      proof (cases "label bodyB = ''sword''")
        case True
        then have i: "identify bodyA bodyB = Some (bodyB, bodyA)"
          using notA by (simp add: identify_def)
        show ?thesis
        proof (cases "\<not> isStatic bodyB \<and> label bodyA = ''ground'' \<and> isVertical (angle bodyB)")
          case pins: True
          then have "collidePair pr s =
              s\<lparr>world := map (\<lambda>b. if ident b = ident bodyB then pin b else b) (world s)\<rparr>"
            using A B i by (simp add: collidePair_def)
          with pins True mem(2) show ?thesis by blast
        next
          case False
          then have "collidePair pr s = s" using A B i by (auto simp: collidePair_def)
          then show ?thesis by simp
        qed
      next
        case False
        then have "identify bodyA bodyB = None" using notA by (simp add: identify_def)
        then have "collidePair pr s = s" using A B by (simp add: collidePair_def)
        then show ?thesis by simp
      qed
    qed
  qed
qed

lemma map_ident_pin:
  "map ident (map (\<lambda>b. if ident b = i then pin b else b) w) = map ident w"
  by (induction w) simp_all

subsection \<open>The invariant of the handlers\<close>

lemma wf_add:
  assumes "distinct (map ident w)" "list_all (body_ok n) w" "ident b = n"
    "label b = ''sword'' \<or> label b = ''ground'' \<and> isStatic b"
  shows "distinct (map ident (World_add w b)) \<and> list_all (body_ok (n + 1)) (World_add w b)"
  using assms body_ok_fresh [OF assms(2)] list_all_body_ok_mono [OF assms(2), of "n + 1"]
  by (auto simp: World_add_def body_ok_def)

lemma wf_createIsland: "wf_game s \<Longrightarrow> wf_game (createIsland s)"
proof -
  assume w: "wf_game s"
  define w0 where
    "w0 = (case islandBody s of None \<Rightarrow> world s | Some i \<Rightarrow> World_remove (world s) i)"
  have "distinct (map ident w0)" "list_all (body_ok (nextId s)) w0"
    using w unfolding w0_def wf_game_def
    by (auto split: option.splits intro: distinct_World_remove list_all_World_remove)
  from wf_add [OF this] show ?thesis
    unfolding wf_game_def createIsland_def Let_def w0_def [symmetric] by simp
qed

lemma wf_reset: "wf_game (reset s)"
  unfolding reset_def by (rule wf_createIsland) (simp add: wf_game_def)

lemma wf_initial: "wf_game (initial cw ch noise2D stored)"
  unfolding initial_def by (rule wf_createIsland) (simp add: wf_game_def)

lemma wf_mousedown: "wf_game s \<Longrightarrow> wf_game (mousedown x now rnd s)"
proof -
  assume w: "wf_game s"
  then have "distinct (map ident (world s))" "list_all (body_ok (nextId s)) (world s)"
    by (simp_all add: wf_game_def)
  from wf_add [OF this] w show ?thesis
    unfolding wf_game_def mousedown_def spawnSword_def Let_def by simp
qed

lemma triggerLifeLoss_keeps [simp]:
  "world (triggerLifeLoss s) = world s" "nextId (triggerLifeLoss s) = nextId s"
  "canvasHeight (triggerLifeLoss s) = canvasHeight s"
  "canvasWidth (triggerLifeLoss s) = canvasWidth s"
  "islandBody (triggerLifeLoss s) = islandBody s"
  "swordsOnScreen (triggerLifeLoss s) = swordsOnScreen s"
  "lives (triggerLifeLoss s) = lives s - 1"
  "lastSpawnTime (triggerLifeLoss s) = lastSpawnTime s"
  by (simp_all add: triggerLifeLoss_def triggerGameOver_def saveScore_def Let_def)

lemma wf_voidCheck: "wf_game s \<Longrightarrow> wf_game (voidCheck b s)"
  unfolding voidCheck_def
  by (simp add: wf_game_def distinct_World_remove list_all_World_remove)

lemma wf_fold_voidCheck: "wf_game s \<Longrightarrow> wf_game (fold voidCheck bs s)"
  by (induction bs arbitrary: s) (simp_all add: wf_voidCheck)

lemma wf_beforeUpdate: "wf_game s \<Longrightarrow> wf_game (beforeUpdate s)"
  by (simp add: beforeUpdate_def wf_fold_voidCheck)

lemma wf_pin_map:
  "wf_game s \<Longrightarrow> wf_game (s\<lparr>world := map (\<lambda>b. if ident b = i then pin b else b) (world s)\<rparr>)"
proof -
  assume w: "wf_game s"
  have "list_all (body_ok (nextId s)) (map (\<lambda>b. if ident b = i then pin b else b) (world s))"
    using w by (auto simp: wf_game_def list_all_iff body_ok_def)
  moreover have "distinct (map ident (map (\<lambda>b. if ident b = i then pin b else b) (world s)))"
    using w unfolding map_ident_pin by (simp add: wf_game_def)
  ultimately show ?thesis unfolding wf_game_def by (simp del: map_map)
qed

lemma wf_collidePair: "wf_game s \<Longrightarrow> wf_game (collidePair pr s)"
  using collidePair_shape [of pr s] by (auto simp: wf_pin_map)

lemma wf_collisionStart: "wf_game s \<Longrightarrow> wf_game (collisionStart pairs s)"
  unfolding collisionStart_def by (induction pairs arbitrary: s) (simp_all add: wf_collidePair)

lemma integrate_keeps:
  "map ident (integrate moves w) = map ident w"
  "map label (integrate moves w) = map label w"
  "map isStatic (integrate moves w) = map isStatic w"
  unfolding integrate_def by (induction w) (auto split: option.splits)

lemma wf_integrate: "wf_game s \<Longrightarrow> wf_game (s\<lparr>world := integrate moves (world s)\<rparr>)"
proof -
  assume w: "wf_game s"
  have "list_all (body_ok n) (integrate moves bs)" if "list_all (body_ok n) bs" for n bs
    using that unfolding integrate_def
    by (induction bs) (auto simp: body_ok_def split: option.splits)
  then have "list_all (body_ok (nextId s)) (integrate moves (world s))"
    using w by (simp add: wf_game_def)
  then show ?thesis using w by (simp add: wf_game_def integrate_keeps)
qed

lemma wf_engineUpdate: "wf_game s \<Longrightarrow> wf_game (engineUpdate moves pairs s)"
  unfolding engineUpdate_def by (intro wf_collisionStart wf_integrate wf_beforeUpdate)

lemma wf_resizeCanvas [simp]: "wf_game (resizeCanvas iw ih s) = wf_game s"
  by (simp add: resizeCanvas_def wf_game_def)

lemma wf_handle: "wf_game s \<Longrightarrow> wf_game (handle e s)"
  by (cases e) (simp_all add: wf_mousedown wf_engineUpdate wf_reset)

lemma wf_run: "wf_game s \<Longrightarrow> wf_game (run evs s)"
  unfolding run_def by (induction evs arbitrary: s) (simp_all add: wf_handle)

text \<open>Every state a session reaches satisfies the invariant.\<close>

lemma wf_reachable: "wf_game (run evs (initial cw ch noise2D stored))"
  by (rule wf_run) (rule wf_initial)

section \<open>The sticking mechanic\<close>







section \<open>Frames while the session is over\<close>

lemma collidePair_keeps:
  "lives (collidePair pr s) = lives s" "swordsOnScreen (collidePair pr s) = swordsOnScreen s"
  "isPlaying (collidePair pr s) = isPlaying s" "highScores (collidePair pr s) = highScores s"
  "lastSpawnTime (collidePair pr s) = lastSpawnTime s"
  "map ident (world (collidePair pr s)) = map ident (world s)"
  "map label (world (collidePair pr s)) = map label (world s)"
  "canvasHeight (collidePair pr s) = canvasHeight s"
proof -
  have l: "map label (map (\<lambda>b. if ident b = i then pin b else b) w) = map label w" for i w
    by (induction w) simp_all
  from collidePair_shape [of pr s]
  show "lives (collidePair pr s) = lives s" "swordsOnScreen (collidePair pr s) = swordsOnScreen s"
    "isPlaying (collidePair pr s) = isPlaying s" "highScores (collidePair pr s) = highScores s"
    "lastSpawnTime (collidePair pr s) = lastSpawnTime s"
    "canvasHeight (collidePair pr s) = canvasHeight s"
    by auto
  from collidePair_shape [of pr s]
  show "map ident (world (collidePair pr s)) = map ident (world s)"
    using map_ident_pin by (auto simp del: map_map)
  from collidePair_shape [of pr s]
  show "map label (world (collidePair pr s)) = map label (world s)"
    using l by (auto simp del: map_map)
qed

lemma collisionStart_keeps:
  "lives (collisionStart pairs s) = lives s"
  "swordsOnScreen (collisionStart pairs s) = swordsOnScreen s"
  "isPlaying (collisionStart pairs s) = isPlaying s"
  "highScores (collisionStart pairs s) = highScores s"
  "lastSpawnTime (collisionStart pairs s) = lastSpawnTime s"
  "map ident (world (collisionStart pairs s)) = map ident (world s)"
  "map label (world (collisionStart pairs s)) = map label (world s)"
  "canvasHeight (collisionStart pairs s) = canvasHeight s"
  unfolding collisionStart_def
  by (induction pairs arbitrary: s) (simp_all add: collidePair_keeps)

lemma world_reset:
  "world (reset s) =
     [\<lparr>ident = nextId s, label = ''ground'', isStatic = True,
       position = (island_startX (canvasWidth s) + island_width (canvasWidth s) / 2,
                   island_surfaceY (canvasHeight s) + DEPTH / 2),
       angle = 0, velocity = (0, 0), angularVelocity = 0,
       shape = Polygon (island_vertices (simplex s) (canvasWidth s) (canvasHeight s))\<rparr>]"
  by (cases "islandBody s") (simp_all add: reset_def createIsland_def Let_def World_add_def)

text \<open>
  Claim C10. While \<open>isPlaying\<close> is false the \<open>beforeUpdate\<close> handler returns at once: the
  state is left as it is, swords below the boundary included. A whole frame in that state
  (the handler, the engine's integration, the collision handler) and a pointer-down event
  keep the bodies of the world, the sword counter, \<open>lives\<close> and the scores; the bodies go
  only with the next \<open>reset\<close>, after which the world holds the new island and nothing else.
\<close>

theorem beforeUpdate_idle_when_over:
  "\<not> isPlaying s \<longrightarrow>
     beforeUpdate s = s
     \<and> mousedown x now rnd s = s
     \<and> map ident (world (engineUpdate moves pairs s)) = map ident (world s)
     \<and> map label (world (engineUpdate moves pairs s)) = map label (world s)
     \<and> swordsOnScreen (engineUpdate moves pairs s) = swordsOnScreen s
     \<and> lives (engineUpdate moves pairs s) = lives s
     \<and> highScores (engineUpdate moves pairs s) = highScores s
     \<and> \<not> isPlaying (engineUpdate moves pairs s)
     \<and> map label (world (reset s)) = [''ground'']"
  by (simp add: beforeUpdate_def mousedown_def engineUpdate_def collisionStart_keeps
      integrate_keeps world_reset)

theorem beforeUpdate_idle_when_over_witness:
  "beforeUpdate finished = finished
   \<and> in_void (canvasHeight finished) (sword_at 4 (900, 1300) 0)
   \<and> world finished = [island0, sword_at 4 (900, 1300) 0]
   \<and> lives (engineUpdate [] [] finished) = 0
   \<and> map label (world (reset finished)) = [''ground'']"
proof -
  have f: "\<not> isPlaying finished" "world finished = [island0, sword_at 4 (900, 1300) 0]"
    "canvasHeight finished = 800" "lives finished = 0"
    by (simp_all add: finished_eval)
  have v: "in_void 800 (sword_at 4 (900, 1300) 0)"
    by (simp add: in_void_def sword_at_def)
  show ?thesis
    using beforeUpdate_idle_when_over [of finished _ _ _ "[]" "[]"] f v by simp
qed

section \<open>Restart\<close>

lemma reset_fields:
  "lives (reset s) = 3" "swordsOnScreen (reset s) = 0" "isPlaying (reset s)"
  "lastSpawnTime (reset s) = 0" "highScores (reset s) = highScores s"
  "islandBody (reset s) = Some (nextId s)" "nextId (reset s) = nextId s + 1"
  "canvasWidth (reset s) = canvasWidth s" "canvasHeight (reset s) = canvasHeight s"
  "simplex (reset s) = simplex s"
  by (simp_all add: reset_def createIsland_def Let_def)

text \<open>
  Claim C8. After \<open>reset\<close>, from any state: \<open>lives = 3\<close>, the sword counter is \<open>0\<close>,
  \<open>isPlaying\<close> is true, \<open>lastSpawnTime\<close> is \<open>0\<close>, and the world holds exactly one body, the
  new island (static, labelled \<open>ground\<close>), which \<open>islandBody\<close> refers to: no body of the
  previous session is left. A second \<open>reset\<close> right after gives the same state again, up
  to the identifier of the island body.
\<close>

theorem reset_idempotent:
  "lives (reset s) = 3 \<and> swordsOnScreen (reset s) = 0 \<and> isPlaying (reset s)
   \<and> lastSpawnTime (reset s) = 0
   \<and> (\<exists>island. world (reset s) = [island] \<and> label island = ''ground'' \<and> isStatic island
        \<and> islandBody (reset s) = Some (ident island)
        \<and> shape island = Polygon (island_vertices (simplex s) (canvasWidth s) (canvasHeight s)))
   \<and> length (world (reset (reset s))) = 1
   \<and> same_session (reset (reset s)) (reset s)
   \<and> same_session (reset s) (reset s)"
  by (simp add: reset_fields world_reset same_session_def anonymous_def)

theorem reset_idempotent_witness:
  "lives (reset finished) = 3 \<and> isPlaying (reset finished)
   \<and> length (world (reset (reset finished))) = 1
   \<and> same_session (reset (reset finished)) (reset finished)
   \<and> length (world finished) = 2 \<and> lives finished = 0"
  using reset_idempotent [of finished] by (simp add: finished_eval)

section \<open>Terrain generation\<close>

subsection \<open>The two passes\<close>

lemma island_width_eq: "island_width cw = real cw / 4"
  by (simp add: island_width_def island_startX_def)

lemma island_width_nonneg: "0 \<le> island_width cw"
  by (simp add: island_width_eq)

lemma hd_top_pass:
  "x \<le> width \<Longrightarrow>
   top_pass noise2D startX surfaceY width x =
     top_vertex noise2D startX surfaceY x # top_pass noise2D startX surfaceY width (x + 15)"
  by (subst top_pass.simps) simp

lemma hd_bottom_pass:
  "0 \<le> x \<Longrightarrow>
   bottom_pass noise2D startX surfaceY width x =
     bottom_vertex noise2D startX surfaceY width x
     # bottom_pass noise2D startX surfaceY width (x - 15)"
  by (subst bottom_pass.simps) simp

lemma top_pass_Nil: "width < x \<Longrightarrow> top_pass noise2D startX surfaceY width x = []"
  by (subst top_pass.simps) simp

lemma bottom_pass_Nil: "x < 0 \<Longrightarrow> bottom_pass noise2D startX surfaceY width x = []"
  by (subst bottom_pass.simps) simp

lemma length_top_pass:
  "length (top_pass noise2D startX surfaceY width x) = nat (\<lfloor>(width - x) / 15\<rfloor> + 1)"
proof (induction noise2D startX surfaceY width x rule: top_pass.induct)
  case (1 noise2D startX surfaceY width x)
  show ?case
  proof (cases "x \<le> width")
    case True
    have eq: "(width - (x + 15)) / 15 = (width - x) / 15 - 1" by simp
    have "0 \<le> \<lfloor>(width - x) / 15\<rfloor>" using True by simp
    then show ?thesis
      using True "1.IH" unfolding eq
      by (simp add: hd_top_pass nat_add_distrib)
  next
    case False
    then have "(width - x) / 15 < 0" by simp
    then have "\<lfloor>(width - x) / 15\<rfloor> < 0" by (simp add: floor_less_iff)
    then have "\<lfloor>(width - x) / 15\<rfloor> + 1 \<le> 0" by linarith
    then show ?thesis
      using False by (simp add: top_pass_Nil)
  qed
qed

lemma length_bottom_pass:
  "length (bottom_pass noise2D startX surfaceY width x) = nat (\<lfloor>x / 15\<rfloor> + 1)"
proof (induction noise2D startX surfaceY width x rule: bottom_pass.induct)
  case (1 noise2D startX surfaceY width x)
  show ?case
  proof (cases "0 \<le> x")
    case True
    have eq: "(x - 15) / 15 = x / 15 - 1" by simp
    have "0 \<le> \<lfloor>x / 15\<rfloor>" using True by simp
    then show ?thesis
      using True "1.IH" unfolding eq
      by (simp add: hd_bottom_pass nat_add_distrib)
  next
    case False
    then have "x / 15 < 0" by simp
    then have "\<lfloor>x / 15\<rfloor> < 0" by (simp add: floor_less_iff)
    then have "\<lfloor>x / 15\<rfloor> + 1 \<le> 0" by linarith
    then show ?thesis
      using False by (simp add: bottom_pass_Nil)
  qed
qed

text \<open>The last sample of the top pass is the last multiple of the step that is not beyond
  the far edge; the last sample of the bottom pass is what is left of the span.\<close>

lemma last_top_pass:
  "x \<le> width \<Longrightarrow>
   last (top_pass noise2D startX surfaceY width x) =
     top_vertex noise2D startX surfaceY (x + 15 * of_int \<lfloor>(width - x) / 15\<rfloor>)"
proof (induction noise2D startX surfaceY width x rule: top_pass.induct)
  case (1 noise2D startX surfaceY width x)
  show ?case
  proof (cases "x + 15 \<le> width")
    case True
    have eq: "(width - (x + 15)) / 15 = (width - x) / 15 - 1" by simp
    have ne: "top_pass noise2D startX surfaceY width (x + 15) \<noteq> []"
      using True by (simp add: hd_top_pass)
    show ?thesis
      using "1.IH" [OF "1.prems" True] ne unfolding eq
      by (simp add: hd_top_pass [OF "1.prems"] algebra_simps)
  next
    case False
    then have "0 \<le> (width - x) / 15" "(width - x) / 15 < 1" using "1.prems" by simp_all
    then have "\<lfloor>(width - x) / 15\<rfloor> = 0" by (simp add: floor_eq_iff)
    then show ?thesis
      using False by (simp add: hd_top_pass [OF "1.prems"] top_pass_Nil)
  qed
qed

lemma last_bottom_pass:
  "0 \<le> x \<Longrightarrow>
   last (bottom_pass noise2D startX surfaceY width x) =
     bottom_vertex noise2D startX surfaceY width (x - 15 * of_int \<lfloor>x / 15\<rfloor>)"
proof (induction noise2D startX surfaceY width x rule: bottom_pass.induct)
  case (1 noise2D startX surfaceY width x)
  show ?case
  proof (cases "0 \<le> x - 15")
    case True
    have eq: "(x - 15) / 15 = x / 15 - 1" by simp
    have ne: "bottom_pass noise2D startX surfaceY width (x - 15) \<noteq> []"
      using True by (simp add: hd_bottom_pass)
    show ?thesis
      using "1.IH" [OF "1.prems" True] ne unfolding eq
      by (simp add: hd_bottom_pass [OF "1.prems"] algebra_simps)
  next
    case False
    then have "0 \<le> x / 15" "x / 15 < 1" using "1.prems" by simp_all
    then have "\<lfloor>x / 15\<rfloor> = 0" by (simp add: floor_eq_iff)
    then show ?thesis
      using False by (simp add: hd_bottom_pass [OF "1.prems"] bottom_pass_Nil)
  qed
qed

text \<open>Every sample lies within the span.\<close>

lemma set_top_pass:
  "p \<in> set (top_pass noise2D startX surfaceY width x) \<Longrightarrow>
   \<exists>t. x \<le> t \<and> t \<le> width \<and> p = top_vertex noise2D startX surfaceY t"
proof (induction noise2D startX surfaceY width x rule: top_pass.induct)
  case (1 noise2D startX surfaceY width x)
  show ?case
  proof (cases "x \<le> width")
    case True
    from "1.prems" have "p = top_vertex noise2D startX surfaceY x
        \<or> p \<in> set (top_pass noise2D startX surfaceY width (x + 15))"
      by (simp add: hd_top_pass [OF True])
    then show ?thesis
    proof
      assume "p = top_vertex noise2D startX surfaceY x"
      with True show ?thesis by auto
    next
      assume "p \<in> set (top_pass noise2D startX surfaceY width (x + 15))"
      from "1.IH" [OF True this] obtain t where
        "x + 15 \<le> t" "t \<le> width" "p = top_vertex noise2D startX surfaceY t" by auto
      then show ?thesis by (intro exI [of _ t]) simp
    qed
  next
    case False
    with "1.prems" show ?thesis by (simp add: top_pass_Nil)
  qed
qed

lemma set_bottom_pass:
  "p \<in> set (bottom_pass noise2D startX surfaceY width x) \<Longrightarrow>
   \<exists>t. 0 \<le> t \<and> t \<le> x \<and> p = bottom_vertex noise2D startX surfaceY width t"
proof (induction noise2D startX surfaceY width x rule: bottom_pass.induct)
  case (1 noise2D startX surfaceY width x)
  show ?case
  proof (cases "0 \<le> x")
    case True
    from "1.prems" have "p = bottom_vertex noise2D startX surfaceY width x
        \<or> p \<in> set (bottom_pass noise2D startX surfaceY width (x - 15))"
      by (simp add: hd_bottom_pass [OF True])
    then show ?thesis
    proof
      assume "p = bottom_vertex noise2D startX surfaceY width x"
      with True show ?thesis by auto
    next
      assume "p \<in> set (bottom_pass noise2D startX surfaceY width (x - 15))"
      from "1.IH" [OF True this] obtain t where
        "0 \<le> t" "t \<le> x - 15" "p = bottom_vertex noise2D startX surfaceY width t" by auto
      then show ?thesis by (intro exI [of _ t]) simp
    qed
  next
    case False
    with "1.prems" show ?thesis by (simp add: bottom_pass_Nil)
  qed
qed

subsection \<open>Thickness of the island\<close>

lemma bottom_vertices_Cons:
  "bottom_vertices noise2D cw ch =
     bottom_vertex noise2D (island_startX cw) (island_surfaceY ch) (island_width cw)
       (island_width cw)
     # bottom_pass noise2D (island_startX cw) (island_surfaceY ch) (island_width cw)
         (island_width cw - 15)"
  unfolding bottom_vertices_def by (rule hd_bottom_pass) (rule island_width_nonneg)

text \<open>
  Claim C3, as the code has it. On a canvas of positive width, with noise samples in
  \<open>[-1, 1]\<close>, every vertex of the bottom pass is the sample of an \<open>x\<close> within the span, with
  \<open>y = surfaceY + 250 * sin (pi * x / width) + 60 * noise\<close> and a belly term that is not
  negative: \<open>y\<close> is at least \<open>surfaceY - 60\<close>, and at least \<open>surfaceY\<close> wherever the belly
  term is at least 60. At the far edge, the first vertex of the pass, the belly term is 0
  and \<open>y = surfaceY + 60 * noise\<close>.
\<close>

theorem bottom_pass_thickness:
  "0 < cw \<and> (\<forall>x y. - 1 \<le> noise2D x y \<and> noise2D x y \<le> 1) \<longrightarrow>
     list_all
       (\<lambda>p. \<exists>x. 0 \<le> x \<and> x \<le> island_width cw \<and> vx p = island_startX cw + x
            \<and> vy p = Num (island_surfaceY ch + DEPTH * sin (x / island_width cw * pi)
                          + noise2D ((x + island_startX cw) * 0.01) 100 * 60)
            \<and> 0 \<le> sin (x / island_width cw * pi)
            \<and> jsnum_ge (vy p) (island_surfaceY ch - 60)
            \<and> (60 \<le> DEPTH * sin (x / island_width cw * pi)
                 \<longrightarrow> jsnum_ge (vy p) (island_surfaceY ch)))
       (bottom_vertices noise2D cw ch)
     \<and> vy (hd (bottom_vertices noise2D cw ch)) =
         Num (island_surfaceY ch
              + noise2D ((island_width cw + island_startX cw) * 0.01) 100 * 60)"
proof (intro impI conjI; elim conjE)
  assume cw: "0 < cw" and noise: "\<forall>x y. - 1 \<le> noise2D x y \<and> noise2D x y \<le> 1"
  define w where "w = island_width cw"
  have w: "0 < w" using cw by (simp add: w_def island_width_eq)
  show "vy (hd (bottom_vertices noise2D cw ch)) =
      Num (island_surfaceY ch + noise2D ((island_width cw + island_startX cw) * 0.01) 100 * 60)"
    using w unfolding bottom_vertices_Cons w_def by (simp add: bottom_vertex_def Let_def)
  show "list_all
       (\<lambda>p. \<exists>x. 0 \<le> x \<and> x \<le> island_width cw \<and> vx p = island_startX cw + x
            \<and> vy p = Num (island_surfaceY ch + DEPTH * sin (x / island_width cw * pi)
                          + noise2D ((x + island_startX cw) * 0.01) 100 * 60)
            \<and> 0 \<le> sin (x / island_width cw * pi)
            \<and> jsnum_ge (vy p) (island_surfaceY ch - 60)
            \<and> (60 \<le> DEPTH * sin (x / island_width cw * pi)
                 \<longrightarrow> jsnum_ge (vy p) (island_surfaceY ch)))
       (bottom_vertices noise2D cw ch)"
    unfolding list_all_iff
  proof
    fix p
    assume "p \<in> set (bottom_vertices noise2D cw ch)"
    then obtain t where t: "0 \<le> t" "t \<le> w"
      and p: "p = bottom_vertex noise2D (island_startX cw) (island_surfaceY ch) w t"
      unfolding bottom_vertices_def w_def using set_bottom_pass by blast
    have "0 \<le> t / w" "t / w \<le> 1" using t w by simp_all
    then have "0 \<le> t / w * pi" "t / w * pi \<le> 1 * pi"
      by (intro mult_nonneg_nonneg mult_right_mono; simp)+
    then have "0 \<le> t / w * pi" "t / w * pi \<le> pi" by simp_all
    then have s: "0 \<le> sin (t / w * pi)" by (rule sin_ge_zero)
    define nv where "nv = noise2D ((t + island_startX cw) * 0.01) 100"
    have nv: "- 1 \<le> nv" "nv \<le> 1" using noise by (simp_all add: nv_def)
    have y: "vy p = Num (island_surfaceY ch + DEPTH * sin (t / w * pi) + nv * 60)"
      and x: "vx p = island_startX cw + t"
      using w by (simp_all add: p bottom_vertex_def Let_def nv_def)
    have lo: "jsnum_ge (vy p) (island_surfaceY ch - 60)"
      unfolding y using s nv by simp
    have hi: "60 \<le> DEPTH * sin (t / w * pi) \<longrightarrow> jsnum_ge (vy p) (island_surfaceY ch)"
      unfolding y using nv by simp
    show "\<exists>x. 0 \<le> x \<and> x \<le> island_width cw \<and> vx p = island_startX cw + x
            \<and> vy p = Num (island_surfaceY ch + DEPTH * sin (x / island_width cw * pi)
                          + noise2D ((x + island_startX cw) * 0.01) 100 * 60)
            \<and> 0 \<le> sin (x / island_width cw * pi)
            \<and> jsnum_ge (vy p) (island_surfaceY ch - 60)
            \<and> (60 \<le> DEPTH * sin (x / island_width cw * pi)
                 \<longrightarrow> jsnum_ge (vy p) (island_surfaceY ch))"
      using t x y s lo hi unfolding w_def [symmetric] nv_def by (intro exI [of _ t]) simp
  qed
qed

theorem bottom_pass_thickness_witness:
  "vy (hd (bottom_vertices (const_noise (- 1)) 1200 800)) = Num 590
   \<and> island_surfaceY 800 = 650 \<and> (0 :: nat) < 1200 \<and> - 1 \<le> const_noise (- 1) 0 100"
  using bottom_pass_thickness [of 1200 "const_noise (- 1)" 800]
  by (simp add: const_noise_def island_surfaceY_def)

text \<open>
  Claim C3, as the specification states it: every vertex of the bottom pass has a \<open>y\<close> at
  or beyond the nominal surface height. With a negative noise sample at the far edge it
  does not: on a canvas of 1200 by 800 and noise \<open>-1\<close> the first vertex of the bottom pass
  is at \<open>y = 590\<close>, above the nominal surface at \<open>650\<close>.
\<close>

theorem positive_thickness_counterexample:
  "\<not> positive_thickness (const_noise (- 1)) 1200 800"
proof
  assume "positive_thickness (const_noise (- 1)) 1200 800"
  then have "jsnum_ge
      (vy (bottom_vertex (const_noise (- 1)) (island_startX 1200) (island_surfaceY 800)
             (island_width 1200) (island_width 1200)))
      (island_surfaceY 800)"
    unfolding positive_thickness_def bottom_vertices_Cons by simp
  then show False
    by (simp add: bottom_vertex_def Let_def const_noise_def island_width_eq island_surfaceY_def)
qed

subsection \<open>Vertex count and closure\<close>

lemma top_vertices_Cons:
  "top_vertices noise2D cw ch =
     top_vertex noise2D (island_startX cw) (island_surfaceY ch) 0
     # top_pass noise2D (island_startX cw) (island_surfaceY ch) (island_width cw) 15"
  unfolding top_vertices_def
  using hd_top_pass [of 0 "island_width cw"] island_width_nonneg [of cw] by simp

lemma floor_span:
  fixes w :: real
  shows "0 \<le> w - 15 * of_int \<lfloor>w / 15\<rfloor>" "w - 15 * of_int \<lfloor>w / 15\<rfloor> < 15"
proof -
  have "of_int \<lfloor>w / 15\<rfloor> \<le> w / 15" "w / 15 < of_int \<lfloor>w / 15\<rfloor> + 1" by linarith+
  then show "0 \<le> w - 15 * of_int \<lfloor>w / 15\<rfloor>" "w - 15 * of_int \<lfloor>w / 15\<rfloor> < 15"
    by (simp_all add: field_simps)
qed

text \<open>
  Claim C9, as the code has it. Each pass emits \<open>floor (span / 15) + 1\<close> vertices, so the
  polygon has twice that many: between \<open>2 * ceil (span / 15)\<close> and \<open>2 * ceil (span / 15) + 2\<close>.
  The first vertex is at the near edge and the last one less than one step to its right:
  the horizontal gap of the closing edge is below one step (nothing bounds the vertical
  gap by the step). The last sample of the top pass is the last multiple of the step
  within the span, less than one step before the far edge; no vertex lies outside the
  span, and the bottom pass starts at the far edge.
\<close>

theorem island_vertices_count_and_closure:
  "(let w = island_width cw; n = \<lfloor>w / 15\<rfloor>; vs = island_vertices noise2D cw ch;
        top = top_vertices noise2D cw ch; bottom = bottom_vertices noise2D cw ch
    in length top = nat (n + 1) \<and> length bottom = nat (n + 1) \<and> length vs = 2 * length top
       \<and> 2 * \<lceil>w / 15\<rceil> \<le> int (length vs) \<and> int (length vs) \<le> 2 * \<lceil>w / 15\<rceil> + 2
       \<and> vx (hd vs) = island_startX cw
       \<and> vx (last vs) = island_startX cw + (w - 15 * of_int n)
       \<and> 0 \<le> vx (last vs) - vx (hd vs) \<and> vx (last vs) - vx (hd vs) < resolution
       \<and> vx (last top) = island_startX cw + 15 * of_int n
       \<and> 0 \<le> w - 15 * of_int n \<and> w - 15 * of_int n < resolution
       \<and> list_all (\<lambda>p. island_startX cw \<le> vx p \<and> vx p \<le> island_startX cw + w) vs
       \<and> vx (hd bottom) = island_startX cw + w)"
proof -
  define w where "w = island_width cw"
  define n where "n = \<lfloor>w / 15\<rfloor>"
  define sx where "sx = island_startX cw"
  define sy where "sy = island_surfaceY ch"
  have w: "0 \<le> w" unfolding w_def by (rule island_width_nonneg)
  then have n: "0 \<le> n" unfolding n_def by simp
  have lt: "length (top_vertices noise2D cw ch) = nat (n + 1)"
    unfolding top_vertices_def length_top_pass n_def w_def by simp
  have lb: "length (bottom_vertices noise2D cw ch) = nat (n + 1)"
    unfolding bottom_vertices_def length_bottom_pass n_def w_def by simp
  have lv: "length (island_vertices noise2D cw ch) = 2 * nat (n + 1)"
    unfolding island_vertices_def using lt lb by simp
  have c: "n \<le> \<lceil>w / 15\<rceil>" "\<lceil>w / 15\<rceil> \<le> n + 1"
    unfolding n_def by linarith+
  have count: "2 * \<lceil>w / 15\<rceil> \<le> int (length (island_vertices noise2D cw ch))"
    "int (length (island_vertices noise2D cw ch)) \<le> 2 * \<lceil>w / 15\<rceil> + 2"
    unfolding lv using n c by simp_all
  have ne: "bottom_vertices noise2D cw ch \<noteq> []" "top_vertices noise2D cw ch \<noteq> []"
    by (simp_all add: bottom_vertices_Cons top_vertices_Cons)
  have hd: "hd (island_vertices noise2D cw ch) = top_vertex noise2D sx sy 0"
    unfolding island_vertices_def sx_def sy_def by (simp add: top_vertices_Cons)
  have "last (island_vertices noise2D cw ch) = last (bottom_vertices noise2D cw ch)"
    unfolding island_vertices_def using ne by simp
  also have "\<dots> = bottom_vertex noise2D sx sy w (w - 15 * of_int n)"
    unfolding bottom_vertices_def n_def w_def [symmetric] sx_def sy_def
    using w by (rule last_bottom_pass)
  finally have last: "last (island_vertices noise2D cw ch) =
      bottom_vertex noise2D sx sy w (w - 15 * of_int n)" .
  have lastt: "last (top_vertices noise2D cw ch) = top_vertex noise2D sx sy (15 * of_int n)"
    unfolding top_vertices_def n_def w_def [symmetric] sx_def sy_def
    using last_top_pass [OF w, of noise2D "island_startX cw" "island_surfaceY ch"] by simp
  have hdb: "hd (bottom_vertices noise2D cw ch) = bottom_vertex noise2D sx sy w w"
    unfolding sx_def sy_def w_def by (simp add: bottom_vertices_Cons)
  have span: "0 \<le> w - 15 * of_int n" "w - 15 * of_int n < 15"
    unfolding n_def by (rule floor_span)+
  have inside: "list_all (\<lambda>p. sx \<le> vx p \<and> vx p \<le> sx + w) (island_vertices noise2D cw ch)"
    unfolding list_all_iff
  proof
    fix p
    assume "p \<in> set (island_vertices noise2D cw ch)"
    then consider "p \<in> set (top_vertices noise2D cw ch)"
      | "p \<in> set (bottom_vertices noise2D cw ch)"
      unfolding island_vertices_def by auto
    then show "sx \<le> vx p \<and> vx p \<le> sx + w"
    proof cases
      case 1
      then obtain t where "0 \<le> t" "t \<le> w" "p = top_vertex noise2D sx sy t"
        unfolding top_vertices_def w_def sx_def sy_def using set_top_pass by blast
      then show ?thesis by (simp add: top_vertex_def Let_def)
    next
      case 2
      then obtain t where "0 \<le> t" "t \<le> w" "p = bottom_vertex noise2D sx sy w t"
        unfolding bottom_vertices_def w_def sx_def sy_def using set_bottom_pass by blast
      then show ?thesis by (simp add: bottom_vertex_def Let_def)
    qed
  qed
  show ?thesis
    unfolding Let_def w_def [symmetric] n_def [symmetric] sx_def [symmetric]
    using lt lb lv count span inside
    by (simp add: hd last lastt hdb top_vertex_def bottom_vertex_def Let_def)
qed

theorem island_vertices_count_and_closure_witness:
  "length (island_vertices (const_noise 1) 1200 800) = 42
   \<and> vx (hd (island_vertices (const_noise 1) 1200 800)) = 360
   \<and> vx (last (island_vertices (const_noise 1) 1200 800)) = 360
   \<and> vx (last (top_vertices (const_noise 1) 1200 800)) = 660
   \<and> length (island_vertices (const_noise 1) 1210 800) = 42
   \<and> vx (last (island_vertices (const_noise 1) 1210 800)) = 365.5
   \<and> vx (last (top_vertices (const_noise 1) 1210 800)) = 663"
proof -
  have f: "\<lfloor>300 / 15 :: real\<rfloor> = 20" "\<lfloor>605 / 2 / 15 :: real\<rfloor> = 20"
    by (simp_all add: floor_eq_iff)
  show ?thesis
    using island_vertices_count_and_closure [of 1200 "const_noise 1" 800]
      island_vertices_count_and_closure [of 1210 "const_noise 1" 800]
    by (simp add: Let_def island_width_eq island_startX_def f)
qed

text \<open>
  Claim C9, as the specification states it: the first and the last point are at most one
  step apart. On a canvas of 1200 by 800 with noise \<open>1\<close> the first point is \<open>(360, 690)\<close>
  and the last one \<open>(360, 710)\<close>: they are 20 apart, more than the step of 15.
\<close>

theorem closed_within_step_counterexample:
  "\<not> closed_within_step (island_vertices (const_noise 1) 1200 800)"
proof -
  have f: "\<lfloor>300 / 15 :: real\<rfloor> = 20" by (simp add: floor_eq_iff)
  have ne: "bottom_vertices (const_noise 1) 1200 800 \<noteq> []"
    by (simp add: bottom_vertices_Cons)
  have h: "hd (island_vertices (const_noise 1) 1200 800) = \<lparr>vx = 360, vy = Num 690\<rparr>"
    unfolding island_vertices_def
    by (simp add: top_vertices_Cons top_vertex_def Let_def const_noise_def island_startX_def
        island_surfaceY_def)
  have "last (island_vertices (const_noise 1) 1200 800)
      = last (bottom_vertices (const_noise 1) 1200 800)"
    unfolding island_vertices_def using ne by simp
  also have "\<dots> = \<lparr>vx = 360, vy = Num 710\<rparr>"
    unfolding bottom_vertices_def
    using last_bottom_pass [of "island_width 1200" "const_noise 1" "island_startX 1200"
        "island_surfaceY 800" "island_width 1200"]
    by (simp add: island_width_eq f bottom_vertex_def Let_def const_noise_def island_startX_def
        island_surfaceY_def)
  finally have l: "last (island_vertices (const_noise 1) 1200 800) = \<lparr>vx = 360, vy = Num 710\<rparr>" .
  have "sqrt ((690 - 710)\<^sup>2) = (20 :: real)" by (simp add: real_sqrt_abs2)
  then show ?thesis
    unfolding closed_within_step_def h l by simp
qed

section \<open>The boundary check\<close>

lemma voidCheck_effect:
  "world (voidCheck b s) =
     (if in_void (canvasHeight s) b then World_remove (world s) (ident b) else world s)"
  "lives (voidCheck b s) = lives s - (if in_void (canvasHeight s) b then 1 else 0)"
  "swordsOnScreen (voidCheck b s) =
     swordsOnScreen s - (if in_void (canvasHeight s) b then 1 else 0)"
  "canvasHeight (voidCheck b s) = canvasHeight s"
  by (simp_all add: voidCheck_def in_void_def)

lemma fold_voidCheck_effect:
  "canvasHeight (fold voidCheck bs s) = canvasHeight s"
  "world (fold voidCheck bs s) =
     fold (\<lambda>b w. if in_void (canvasHeight s) b then World_remove w (ident b) else w) bs (world s)"
  "lives (fold voidCheck bs s) = lives s - int (length (filter (in_void (canvasHeight s)) bs))"
  "swordsOnScreen (fold voidCheck bs s) =
     swordsOnScreen s - int (length (filter (in_void (canvasHeight s)) bs))"
  by (induction bs arbitrary: s) (simp_all add: voidCheck_effect)

lemma fold_remove_filter:
  "distinct (map ident w) \<Longrightarrow>
   fold (\<lambda>b w. if P b then World_remove w (ident b) else w) bs w =
     filter (\<lambda>c. ident c \<notin> ident ` {b \<in> set bs. P b}) w"
proof (induction bs arbitrary: w)
  case Nil
  show ?case by simp
next
  case (Cons b bs)
  show ?case
  proof (cases "P b")
    case True
    have d: "distinct (map ident (World_remove w (ident b)))"
      using Cons.prems by (rule distinct_World_remove)
    have "{c \<in> set (b # bs). P c} = insert b {c \<in> set bs. P c}" using True by auto
    then show ?thesis
      using True Cons.IH [OF d] World_remove_filter [OF Cons.prems, of "ident b"]
      by (auto intro!: filter_cong)
  next
    case False
    then have "{c \<in> set (b # bs). P c} = {c \<in> set bs. P c}" by auto
    then show ?thesis using False Cons.IH [OF Cons.prems] by simp
  qed
qed

lemma world_beforeUpdate:
  assumes "isPlaying s" "distinct (map ident (world s))"
  shows "world (beforeUpdate s) = filter (\<lambda>b. \<not> in_void (canvasHeight s) b) (world s)"
proof -
  have inj: "inj_on ident (set (world s))"
    using assms(2) by (simp add: distinct_map)
  have "world (beforeUpdate s) =
      filter (\<lambda>c. ident c \<notin> ident ` {b \<in> set (world s). in_void (canvasHeight s) b}) (world s)"
    using assms by (simp add: beforeUpdate_def fold_voidCheck_effect fold_remove_filter)
  also have "\<dots> = filter (\<lambda>b. \<not> in_void (canvasHeight s) b) (world s)"
  proof (rule filter_cong [OF refl])
    fix c
    assume c: "c \<in> set (world s)"
    show "(ident c \<notin> ident ` {b \<in> set (world s). in_void (canvasHeight s) b})
        = (\<not> in_void (canvasHeight s) c)"
      using c inj by (auto dest: inj_onD)
  qed
  finally show ?thesis .
qed

text \<open>A static body at or above the boundary survives every handler but a resize and a
  restart, in the place where it is.\<close>

lemma static_survives_handle:
  assumes "wf_game s" "quiet e" "b \<in> set (world s)" "isStatic b"
    "\<not> in_void (canvasHeight s) b"
  shows "b \<in> set (world (handle e s)) \<and> canvasHeight (handle e s) = canvasHeight s"
proof (cases e)
  case (MouseDown clientX now rnd)
  with assms show ?thesis
    by (simp add: mousedown_def spawnSword_def World_add_def Let_def)
next
  case (Frame moves pairs)
  define s1 where "s1 = beforeUpdate s"
  define s2 where "s2 = s1\<lparr>world := integrate moves (world s1)\<rparr>"
  have d: "distinct (map ident (world s))" using assms(1) by (simp add: wf_game_def)
  have h1: "canvasHeight s1 = canvasHeight s"
    unfolding s1_def beforeUpdate_def by (simp add: fold_voidCheck_effect)
  have b1: "b \<in> set (world s1)"
  proof (cases "isPlaying s")
    case True
    show ?thesis unfolding s1_def world_beforeUpdate [OF True d] using assms by simp
  next
    case False
    then show ?thesis unfolding s1_def using assms by (simp add: beforeUpdate_def)
  qed
  have b2: "b \<in> set (world s2)"
    unfolding s2_def integrate_def using b1 assms(4) by (auto simp: image_iff intro!: bexI [of _ b])
  have w2: "wf_game s2"
    unfolding s2_def s1_def by (intro wf_integrate wf_beforeUpdate assms(1))
  have keep: "wf_game t \<Longrightarrow> b \<in> set (world t) \<Longrightarrow>
      b \<in> set (world (fold collidePair prs t)) \<and>
      canvasHeight (fold collidePair prs t) = canvasHeight t" for prs t
  proof (induction prs arbitrary: t)
    case Nil
    then show ?case by simp
  next
    case (Cons pr prs)
    have "b \<in> set (world (collidePair pr t))"
      using collidePair_shape [of pr t]
    proof
      assume "collidePair pr t = t"
      with Cons.prems show ?thesis by simp
    next
      assume "\<exists>sw \<in> set (world t). \<not> isStatic sw \<and> label sw = ''sword'' \<and>
          collidePair pr t =
            t\<lparr>world := map (\<lambda>b. if ident b = ident sw then pin b else b) (world t)\<rparr>"
      then obtain sw where sw: "sw \<in> set (world t)" "\<not> isStatic sw"
        and eq: "collidePair pr t =
            t\<lparr>world := map (\<lambda>b. if ident b = ident sw then pin b else b) (world t)\<rparr>"
        by blast
      have "inj_on ident (set (world t))"
        using Cons.prems(1) by (simp add: wf_game_def distinct_map)
      with sw Cons.prems(2) assms(4) have "ident b \<noteq> ident sw"
        by (auto dest: inj_onD)
      then show ?thesis
        unfolding eq using Cons.prems(2) by (auto simp: image_iff intro!: bexI [of _ b])
    qed
    with Cons.IH [OF wf_collidePair [OF Cons.prems(1)], of pr] show ?case
      by (simp add: collidePair_keeps)
  qed
  from keep [OF w2 b2, of pairs] h1 show ?thesis
    unfolding Frame by (simp add: engineUpdate_def collisionStart_def s2_def s1_def)
next
  case (Resize iw ih)
  with assms(2) show ?thesis by simp
next
  case Restart
  with assms(2) show ?thesis by simp
qed

lemma static_survives_run:
  "wf_game s \<Longrightarrow> list_all quiet evs \<Longrightarrow> b \<in> set (world s) \<Longrightarrow> isStatic b \<Longrightarrow>
   \<not> in_void (canvasHeight s) b \<Longrightarrow> b \<in> set (world (run evs s))"
  unfolding run_def
proof (induction evs arbitrary: s)
  case Nil
  then show ?case by simp
next
  case (Cons e evs)
  from Cons.prems have q: "quiet e" "list_all quiet evs" by simp_all
  from static_survives_handle [OF Cons.prems(1) q(1) Cons.prems(3,4,5)]
  have "b \<in> set (world (handle e s))" "\<not> in_void (canvasHeight (handle e s)) b"
    using Cons.prems(5) by simp_all
  from Cons.IH [OF wf_handle [OF Cons.prems(1)] q(2) this(1) Cons.prems(4) this(2)]
  show ?case by simp
qed

text \<open>
  Claim C4, as the code has it. The boundary check does not look at \<open>isStatic\<close>: while the
  session is playing it removes exactly the bodies labelled \<open>sword\<close> whose \<open>y\<close> is beyond
  \<open>canvas.height + 400\<close>, pinned or not, and takes one life and one off the counter for
  each. A static body that is not beyond the boundary is therefore not removed, and it
  stays in the world through every sequence of pointer events and frames: until the
  canvas is resized or the session restarted.
\<close>

theorem beforeUpdate_removes_by_position:
  "(isPlaying s \<and> wf_game s \<longrightarrow>
      world (beforeUpdate s) = filter (\<lambda>b. \<not> in_void (canvasHeight s) b) (world s)
      \<and> lives (beforeUpdate s)
          = lives s - int (length (filter (in_void (canvasHeight s)) (world s)))
      \<and> swordsOnScreen (beforeUpdate s)
          = swordsOnScreen s - int (length (filter (in_void (canvasHeight s)) (world s))))
   \<and> (wf_game s \<and> list_all quiet evs \<and> b \<in> set (world s) \<and> isStatic b
        \<and> snd (position b) \<le> real (canvasHeight s) + 400
      \<longrightarrow> b \<in> set (world (run evs s)))"
proof (intro conjI impI; elim conjE)
  assume p: "isPlaying s" and w: "wf_game s"
  then have d: "distinct (map ident (world s))" by (simp add: wf_game_def)
  show "world (beforeUpdate s) = filter (\<lambda>b. \<not> in_void (canvasHeight s) b) (world s)"
    by (rule world_beforeUpdate [OF p d])
  show "lives (beforeUpdate s)
      = lives s - int (length (filter (in_void (canvasHeight s)) (world s)))"
    using p by (simp add: beforeUpdate_def fold_voidCheck_effect)
  show "swordsOnScreen (beforeUpdate s)
      = swordsOnScreen s - int (length (filter (in_void (canvasHeight s)) (world s)))"
    using p by (simp add: beforeUpdate_def fold_voidCheck_effect)
next
  assume "wf_game s" "list_all quiet evs" "b \<in> set (world s)" "isStatic b"
    "snd (position b) \<le> real (canvasHeight s) + 400"
  then show "b \<in> set (world (run evs s))"
    by (intro static_survives_run) (simp_all add: in_void_def)
qed

lemma wf_landing: "wf_game landing"
  unfolding landing_def fresh_def by (rule wf_reachable)

lemma wf_last_life: "wf_game last_life"
  unfolding last_life_def fresh_def by (rule wf_reachable)

theorem beforeUpdate_removes_by_position_witness:
  "world (beforeUpdate last_life) = [island0]
   \<and> lives (beforeUpdate last_life) = lives last_life - 2
   \<and> pin (sword_at 1 (500, 490) 0.3)
       \<in> set (world (run [MouseDown 100 2000 0.5, Frame [] []] (collidePair (1, 0) landing)))"
proof -
  define pinned where "pinned = pin (sword_at 1 (500, 490) 0.3)"
  define s where "s = collidePair (1, 0) landing"
  have "isVertical 0.3"
    by (rule isVertical_small) simp_all
  then have s_eval: "s = landing\<lparr>world := [island0, pinned]\<rparr>"
    unfolding s_def pinned_def landing_eval
    by (simp add: collidePair_def lookup_body_def identify_def sword_at_def island0_def)
  have w: "wf_game s" unfolding s_def by (rule wf_collidePair [OF wf_landing])
  have b: "pinned \<in> set (world s)" "isStatic pinned"
    "snd (position pinned) \<le> real (canvasHeight s) + 400"
    unfolding s_eval by (simp_all add: pinned_def landing_eval sword_at_def)
  have q: "list_all quiet [MouseDown 100 2000 0.5, Frame [] []]" by simp
  have 1: "pinned \<in> set (world (run [MouseDown 100 2000 0.5, Frame [] []] s))"
    using beforeUpdate_removes_by_position
      [of s "[MouseDown 100 2000 0.5, Frame [] []]" pinned] w b q
    by blast
  have v: "filter (\<lambda>b. \<not> in_void (canvasHeight last_life) b) (world last_life) = [island0]"
    "filter (in_void (canvasHeight last_life)) (world last_life)
       = [sword_at 3 (100, 1300) 0, sword_at 4 (900, 1300) 0]"
    "isPlaying last_life"
    by (simp_all add: last_life_eval in_void_def island0_def sword_at_def)
  have 2: "world (beforeUpdate last_life) = [island0]
      \<and> lives (beforeUpdate last_life) = lives last_life - 2"
    using beforeUpdate_removes_by_position [of last_life "[]" island0] wf_last_life v
    by simp
  show ?thesis using 1 2 unfolding s_def pinned_def by simp
qed

lemma pinned_then_resized_eval:
  "pinned_then_resized = \<lparr>lives = 3, swordsOnScreen = 1, isPlaying = True, lastSpawnTime = 1000,
     highScores = [0, 0, 0], world = [tall_island, pin (sword_at 1 (500, 1690) 0)],
     islandBody = Some 0, simplex = const_noise 0, nextId = 2,
     canvasWidth = 1200, canvasHeight = 400\<rparr>"
proof -
  have v: "isVertical 0" by (rule isVertical_small) simp_all
  show ?thesis
    unfolding pinned_then_resized_def
    by (simp add: step_defs initial_def createIsland_def resizeCanvas_def collidePair_def
        lookup_body_def identify_def v tall_island_def sword_at_def pin_def
        island_startX_def island_width_def island_surfaceY_def)
qed

text \<open>
  Claim C4, as the specification states it: a body that the stick classifier has made
  static is never removed by the boundary check nor counted as a life loss. The check tests
  the label and the position only. A sword pinned at \<open>y = 1690\<close> on a canvas 2000 high is
  beyond the boundary once the window is 400 high: the next \<open>beforeUpdate\<close> removes it and
  takes a life, although no falling sword is in the world.
\<close>

theorem keeps_pinned_counterexample:
  "\<not> keeps_pinned pinned_then_resized
   \<and> world pinned_then_resized = [tall_island, pin (sword_at 1 (500, 1690) 0)]
   \<and> isStatic (pin (sword_at 1 (500, 1690) 0))
   \<and> world (beforeUpdate pinned_then_resized) = [tall_island]
   \<and> lives (beforeUpdate pinned_then_resized) = lives pinned_then_resized - 1"
  unfolding keeps_pinned_def pinned_then_resized_eval
  by (simp add: step_defs tall_island_def sword_at_def pin_def)

section \<open>Lives\<close>

lemma lives_ok_voidCheck: "lives_ok s \<Longrightarrow> lives_ok (voidCheck b s)"
  by (auto simp: lives_ok_def voidCheck_def triggerLifeLoss_def triggerGameOver_def
      saveScore_def Let_def)

lemma lives_ok_fold_voidCheck: "lives_ok s \<Longrightarrow> lives_ok (fold voidCheck bs s)"
  by (induction bs arbitrary: s) (simp_all add: lives_ok_voidCheck)

lemma lives_ok_handle: "lives_ok s \<Longrightarrow> lives_ok (handle e s)"
proof (cases e)
  case (MouseDown clientX now rnd)
  then show "lives_ok s \<Longrightarrow> ?thesis"
    by (simp add: lives_ok_def mousedown_def spawnSword_def Let_def)
next
  case (Frame moves pairs)
  assume "lives_ok s"
  then have "lives_ok (beforeUpdate s)"
    by (simp add: beforeUpdate_def lives_ok_fold_voidCheck)
  then show ?thesis
    unfolding Frame by (simp add: lives_ok_def engineUpdate_def collisionStart_keeps)
next
  case (Resize iw ih)
  then show "lives_ok s \<Longrightarrow> ?thesis" by (simp add: lives_ok_def resizeCanvas_def)
next
  case Restart
  then show ?thesis by (simp add: lives_ok_def reset_fields)
qed

lemma lives_ok_reachable: "lives_ok (run evs (initial cw ch noise2D stored))"
proof -
  have 0: "lives_ok (initial cw ch noise2D stored)"
    by (simp add: lives_ok_def initial_def createIsland_def Let_def)
  have "lives_ok s \<Longrightarrow> lives_ok (run evs s)" for s
    unfolding run_def by (induction evs arbitrary: s) (simp_all add: lives_ok_handle)
  from this [OF 0] show ?thesis .
qed

text \<open>
  Claim C2: in every reachable state \<open>lives\<close> is within \<open>0..maxLives\<close>, also when several
  swords cross the boundary in the same step. The upper bound holds (\<open>lives_ok_reachable\<close>).
  The lower bound does not: \<open>beforeUpdate\<close> tests \<open>isPlaying\<close> once, before the \<open>forEach\<close>,
  and \<open>triggerLifeLoss\<close> runs for every sword of the snapshot that is beyond the boundary.
  With one life left and two such swords, \<open>lives\<close> goes from 1 to 0 and on to -1, and the
  score is saved twice.
\<close>

theorem lives_below_zero:
  "lives last_life = 1 \<and> isPlaying last_life
   \<and> filter (in_void (canvasHeight last_life)) (world last_life)
       = [sword_at 3 (100, 1300) 0, sword_at 4 (900, 1300) 0]
   \<and> lives (beforeUpdate last_life) = - 1
   \<and> \<not> isPlaying (beforeUpdate last_life)
   \<and> lives (handle (Frame [] []) last_life) = - 1
   \<and> lives (fold voidCheck [sword_at 3 (100, 1300) 0] last_life) = 0
   \<and> \<not> isPlaying (fold voidCheck [sword_at 3 (100, 1300) 0] last_life)"
  unfolding last_life_eval
  by (simp add: step_defs in_void_def island0_def sword_at_def)

end
